theory Spec2Isabelle
  imports Main "HOL-Library.Multiset"
begin

section \<open>Python values\<close>

text \<open>
  A Python \<open>str\<close> is a sequence of Unicode code points, and \<open>len\<close>, indexing and the
  protocol's offsets all count code points. A string is therefore a list of code points
  (natural numbers), not a list of 8-bit characters; \<open>str\<close> turns an ASCII literal into
  one.
\<close>

type_synonym pystr = "nat list"

definition str :: "string \<Rightarrow> pystr" where
  "str cs = map of_char cs"

text \<open>
  What \<open>json.load\<close> returns and \<open>json.dump\<close> accepts. A \<open>dict\<close> is an association
  list in insertion order (the order \<open>json.dump\<close> writes the keys in), looked up with
  \<open>map_of\<close>. A float is kept as the text of its literal: the plugin never computes with
  one.
\<close>

datatype json =
    JNull
  | JBool bool
  | JInt int
  | JFloat pystr
  | JString pystr
  | JArray "json list"
  | JObject "(pystr \<times> json) list"

datatype py_error = JSONDecodeError | AttributeError | IndexError

text \<open>\<open>d.get(key, default)\<close>: only a \<open>dict\<close> has the method.\<close>

definition py_get :: "json \<Rightarrow> pystr \<Rightarrow> json \<Rightarrow> py_error + json" where
  "py_get d key dflt =
     (case d of
        JObject kvs \<Rightarrow> Inr (case map_of kvs key of None \<Rightarrow> dflt | Some v \<Rightarrow> v)
      | _ \<Rightarrow> Inl AttributeError)"

text \<open>\<open>s.startswith(p)\<close> on two strings.\<close>

definition startswith :: "pystr \<Rightarrow> pystr \<Rightarrow> bool" where
  "startswith s p = (take (length p) s = p)"

text \<open>
  \<open>s.split(sep)\<close> for a separator of one code point: the pieces between the
  separators, never an empty list.
\<close>

fun str_split :: "pystr \<Rightarrow> nat \<Rightarrow> pystr list" where
  "str_split [] sep = [[]]"
| "str_split (c # cs) sep =
     (if c = sep then [] # str_split cs sep
      else (case str_split cs sep of
              [] \<Rightarrow> [[c]]
            | w # ws \<Rightarrow> (c # w) # ws))"

text \<open>\<open>xs[i]\<close> on a list: a negative index counts from the end, out of range raises.\<close>

definition getitem :: "'a list \<Rightarrow> int \<Rightarrow> py_error + 'a" where
  "getitem xs i =
     (if 0 \<le> i \<and> i < int (length xs) then Inr (xs ! nat i)
      else if i < 0 \<and> - int (length xs) \<le> i then Inr (xs ! nat (int (length xs) + i))
      else Inl IndexError)"

section \<open>The echo plugin (\<open>examples/plugins/echo-plugin/plugin.py\<close>)\<close>

text \<open>
  The loop of lines 27--28:
  \<^verbatim>\<open>while pos < len(source) and source[pos] in ' \t': pos += 1\<close>.
  The index is read only when it is in range, as \<open>and\<close> short-circuits.
\<close>

function skip_blanks :: "pystr \<Rightarrow> nat \<Rightarrow> nat" where
  "skip_blanks source pos =
     (if pos < length source
      then (if source ! pos \<in> set (str [CHR '' '', CHR 0x09])
            then skip_blanks source (pos + 1)
            else pos)
      else pos)"
  by pat_completeness auto
termination
  by (relation "measure (\<lambda>(source, pos). length source - pos)") auto

declare skip_blanks.simps [simp del]

text \<open>Line 31: the docblock text, given \<open>file_path.split('/')[-1]\<close>.\<close>

definition comment :: "pystr \<Rightarrow> pystr" where
  "comment name =
     str ''\<newline>/**\<newline> * @file '' @ name @ str ''\<newline> */''"

text \<open>
  An entry of the response's \<open>edits\<close> list as the wire protocol of the spec (section 6)
  writes it: exactly the keys \<open>start\<close>, \<open>end\<close>, \<open>replacement\<close> and \<open>message\<close>, two
  integers and two strings.
\<close>

definition response_edit :: "int \<Rightarrow> int \<Rightarrow> pystr \<Rightarrow> pystr \<Rightarrow> json" where
  "response_edit a b r m =
     JObject
       [(str ''start'', JInt a),
        (str ''end'', JInt b),
        (str ''replacement'', JString r),
        (str ''message'', JString m)]"

text \<open>Lines 32--37: the dict appended to \<open>edits\<close>.\<close>

definition edit_dict :: "nat \<Rightarrow> pystr \<Rightarrow> json" where
  "edit_dict pos replacement =
     JObject
       [(str ''start'', JInt (int pos)),
        (str ''end'', JInt (int pos)),
        (str ''replacement'', JString replacement),
        (str ''message'', JString (str ''Add file docblock comment''))]"

text \<open>
  Lines 21--37: the list \<open>edits\<close> as line 40 finds it. \<open>source\<close> and \<open>file_path\<close> are
  whatever the request held; a value that is not a \<open>str\<close> has neither \<open>startswith\<close> nor
  \<open>split\<close>, and \<open>file_path\<close> is only touched inside the \<open>if\<close>.
\<close>

definition suggest :: "json \<Rightarrow> json \<Rightarrow> py_error + json list" where
  "suggest source file_path =
     (case source of
        JString s \<Rightarrow>
          if startswith s (str ''<?php'') \<and> \<not> startswith s (str ''<?php\<newline>/**'')
          then
            (let pos = skip_blanks s 5 in
             case file_path of
               JString f \<Rightarrow>
                 (case getitem (str_split f (of_char CHR ''/'')) (- 1) of
                    Inl e \<Rightarrow> Inl e
                  | Inr name \<Rightarrow> Inr [edit_dict pos (comment name)])
             | _ \<Rightarrow> Inl AttributeError)
          else Inr []
      | _ \<Rightarrow> Inl AttributeError)"

text \<open>Line 40: \<^verbatim>\<open>output = {'edits': edits}\<close>.\<close>

definition output_dict :: "json list \<Rightarrow> json" where
  "output_dict edits = JObject [(str ''edits'', JArray edits)]"

text \<open>
  Standard output is the list of documents handed to \<open>json.dump(_, sys.stdout)\<close>,
  oldest first.
\<close>

type_synonym stdout = "json list"

definition json_dump :: "json \<Rightarrow> stdout \<Rightarrow> stdout" where
  "json_dump doc out = out @ [doc]"

text \<open>
  \<open>main\<close>. Its first argument is the outcome of \<open>json.load(sys.stdin)\<close>: the parsed
  document, or the exception the parser raised. The result is the exception that ended
  the run, or standard output after a normal return.
\<close>

definition main :: "py_error + json \<Rightarrow> stdout \<Rightarrow> py_error + stdout" where
  "main loaded out =
     (case loaded of
        Inl e \<Rightarrow> Inl e
      | Inr input_data \<Rightarrow>
          (case py_get input_data (str ''source'') (JString []) of
             Inl e \<Rightarrow> Inl e
           | Inr source \<Rightarrow>
               (case py_get input_data (str ''file'') (JString []) of
                  Inl e \<Rightarrow> Inl e
                | Inr file_path \<Rightarrow>
                    (case suggest source file_path of
                       Inl e \<Rightarrow> Inl e
                     | Inr edits \<Rightarrow>
                         Inr (json_dump (output_dict edits) out)))))"

section \<open>The Edit Merger of the host\<close>

text \<open>
  The repository's files hold the example plugin only. The host's Edit value type, its
  validation and its Edit Merger are written here from sections 3, 4.1 and 4.4 of the
  spec; each such definition says so.
\<close>

text \<open>
  Modelled from the spec: the Edit value type of section 3 (the host's own type is not
  among the sources). Offsets are the integers a response carried, so that an offset out
  of range can be told from a valid one.
\<close>

record edit =
  edit_start :: int
  edit_end :: int
  edit_replacement :: pystr
  edit_message :: pystr

text \<open>
  Modelled from the spec: an AggregatedEdit of section 3, an Edit plus the identifier of
  the plugin that produced it.
\<close>

record aggregated_edit = edit +
  origin :: pystr

text \<open>
  Modelled from the spec: the invariant of section 3 that validation (section 4.1)
  checks, \<open>0 <= start <= end <= length(source)\<close>.
\<close>

definition valid_edit :: "pystr \<Rightarrow> aggregated_edit \<Rightarrow> bool" where
  "valid_edit source e \<longleftrightarrow>
     0 \<le> edit_start e \<and> edit_start e \<le> edit_end e \<and> edit_end e \<le> int (length source)"

text \<open>
  Modelled from the spec: the two reasons of section 7 for which the Merger excludes an
  Edit, and the report of section 4.4, step 5. The spec names two kinds of
  \<open>InvalidEditError\<close> without saying which one an Edit that is both inverted and out of
  range gets, so the kind is left out.
\<close>

datatype merge_error = InvalidEditError | OverlapError

record report =
  applied :: "aggregated_edit list"
  rejected :: "(aggregated_edit \<times> merge_error) list"

text \<open>
  Modelled from the spec: what step 3 of section 4.4 tracks while it walks the sorted
  Edits: the cursor, the output buffer, and the report so far.
\<close>

record walk_state = report +
  cursor :: int
  buffer :: pystr

text \<open>
  Modelled from the spec: the slice \<open>source[i:j]\<close> of section 4.4 at offsets that are
  not negative.
\<close>

definition slice :: "pystr \<Rightarrow> int \<Rightarrow> int \<Rightarrow> pystr" where
  "slice source i j = drop (nat i) (take (nat j) source)"

text \<open>
  Modelled from the spec: one Edit of the walk of section 4.4, step 3. An Edit that
  starts before the cursor is rejected with \<open>OverlapError\<close>; any other is accepted: the
  source up to its start and then its replacement go to the buffer, and the cursor moves
  to its end.
\<close>

definition walk_step :: "pystr \<Rightarrow> walk_state \<Rightarrow> aggregated_edit \<Rightarrow> walk_state" where
  "walk_step source st e =
     (if edit_start e < cursor st
      then st\<lparr>rejected := rejected st @ [(e, OverlapError)]\<rparr>
      else st\<lparr>buffer := buffer st @ slice source (cursor st) (edit_start e) @ edit_replacement e,
              cursor := edit_end e,
              applied := applied st @ [e]\<rparr>)"

text \<open>Modelled from the spec: the walk of section 4.4, step 3, over the sorted Edits.\<close>

fun walk :: "pystr \<Rightarrow> aggregated_edit list \<Rightarrow> walk_state \<Rightarrow> walk_state" where
  "walk source [] st = st"
| "walk source (e # es) st = walk source es (walk_step source st e)"

text \<open>
  Modelled from the spec: the state the walk starts from, after step 1 of section 4.4
  has recorded every invalid Edit as rejected: cursor 0 and an empty buffer.
\<close>

definition initial_state :: "pystr \<Rightarrow> aggregated_edit list \<Rightarrow> walk_state" where
  "initial_state source edits =
     \<lparr>applied = [],
      rejected = map (\<lambda>e. (e, InvalidEditError)) (filter (\<lambda>e. \<not> valid_edit source e) edits),
      cursor = 0,
      buffer = []\<rparr>"

text \<open>
  Modelled from the spec: steps 4 and 5 of section 4.4, the rest of the source appended
  to the buffer, and the report.
\<close>

definition finish :: "pystr \<Rightarrow> walk_state \<Rightarrow> pystr \<times> report" where
  "finish source st =
     (buffer st @ drop (nat (cursor st)) source,
      \<lparr>applied = applied st, rejected = rejected st\<rparr>)"

text \<open>
  Modelled from the spec: the Edit Merger of section 4.4. The valid Edits are sorted by
  \<open>start\<close> with the library's stable insertion sort, walked, and the result finished.
\<close>

definition merger :: "aggregated_edit list \<Rightarrow> pystr \<Rightarrow> pystr \<times> report" where
  "merger edits source =
     finish source
       (walk source (sort_key edit_start (filter (valid_edit source) edits))
          (initial_state source edits))"

section \<open>Facts about the plugin\<close>

subsection \<open>Splitting and indexing\<close>

lemma str_split_not_Nil: "str_split s sep \<noteq> []"
  by (induction s) (auto split: list.splits)

lemma getitem_minus_one: "xs \<noteq> [] \<Longrightarrow> getitem xs (- 1) = Inr (last xs)"
  by (cases xs rule: rev_cases) (auto simp: getitem_def nth_append)

lemma str_split_no_sep: "sep \<notin> set f \<Longrightarrow> str_split f sep = [f]"
  by (induction f) auto

lemma str_split_sep: "sep \<in> set f \<Longrightarrow> 2 \<le> length (str_split f sep)"
proof (induction f)
  case Nil
  then show ?case by simp
next
  case (Cons c cs)
  show ?case
  proof (cases "c = sep")
    case True
    have "1 \<le> length (str_split cs sep)"
      using str_split_not_Nil [of cs sep] by (cases "str_split cs sep") auto
    with True show ?thesis by simp
  next
    case False
    with Cons show ?thesis by (auto split: list.splits)
  qed
qed

lemma last_str_split:
  "last (str_split f sep) = rev (takeWhile (\<lambda>c. c \<noteq> sep) (rev f))"
proof (induction f)
  case Nil
  then show ?case by simp
next
  case (Cons c cs)
  show ?case
  proof (cases "c = sep")
    case True
    with Cons show ?thesis
      by (cases "\<forall>x\<in>set cs. x \<noteq> sep") (auto simp: str_split_not_Nil takeWhile_append takeWhile_eq_all_conv [THEN iffD2])
  next
    case False
    show ?thesis
    proof (cases "sep \<in> set cs")
      case True
      from str_split_sep [OF True] obtain w v vs where sp: "str_split cs sep = w # v # vs"
        by (cases "str_split cs sep"; cases "tl (str_split cs sep)") auto
      have "takeWhile (\<lambda>c. c \<noteq> sep) (rev cs @ [c]) = takeWhile (\<lambda>c. c \<noteq> sep) (rev cs)"
        using True by (intro takeWhile_append1 [of sep]) auto
      with Cons False sp show ?thesis by simp
    next
      case nosep: False
      have "takeWhile (\<lambda>c. c \<noteq> sep) (rev (c # cs)) = rev (c # cs)"
        using False nosep by (auto simp: takeWhile_eq_all_conv)
      then have "rev (takeWhile (\<lambda>c. c \<noteq> sep) (rev (c # cs))) = c # cs"
        by (simp only: rev_rev_ident)
      moreover have "last (str_split (c # cs) sep) = c # cs"
        using False nosep by (simp add: str_split_no_sep)
      ultimately show ?thesis by (simp only:)
    qed
  qed
qed

subsection \<open>The loop that skips blanks\<close>

lemma blank_iff:
  "c \<in> set (str [CHR '' '', CHR 0x09]) \<longleftrightarrow> c = of_char CHR '' '' \<or> c = of_char CHR 0x09"
  by (auto simp: str_def)

lemma skip_blanks_ge: "pos \<le> skip_blanks s pos"
proof (induction s pos rule: skip_blanks.induct)
  case (1 source pos)
  show ?case
  proof (cases "pos < length source \<and> source ! pos \<in> set (str [CHR '' '', CHR 0x09])")
    case True
    with 1 have "pos + 1 \<le> skip_blanks source (pos + 1)" by simp
    with True show ?thesis by (subst skip_blanks.simps) simp
  next
    case False
    then show ?thesis by (subst skip_blanks.simps) auto
  qed
qed

lemma skip_blanks_le: "pos \<le> length s \<Longrightarrow> skip_blanks s pos \<le> length s"
proof (induction s pos rule: skip_blanks.induct)
  case (1 source pos)
  show ?case
  proof (cases "pos < length source \<and> source ! pos \<in> set (str [CHR '' '', CHR 0x09])")
    case True
    with 1 have "skip_blanks source (pos + 1) \<le> length source" by simp
    with True show ?thesis by (subst skip_blanks.simps) simp
  next
    case False
    with 1(2) show ?thesis by (subst skip_blanks.simps) auto
  qed
qed

lemma skip_blanks_run:
  "pos \<le> i \<Longrightarrow> i < skip_blanks s pos \<Longrightarrow> s ! i \<in> set (str [CHR '' '', CHR 0x09])"
proof (induction s pos rule: skip_blanks.induct)
  case (1 source pos)
  show ?case
  proof (cases "pos < length source \<and> source ! pos \<in> set (str [CHR '' '', CHR 0x09])")
    case True
    then have eq: "skip_blanks source pos = skip_blanks source (pos + 1)"
      by (subst skip_blanks.simps) simp
    show ?thesis
    proof (cases "i = pos")
      case True
      with \<open>pos < length source \<and> _\<close> show ?thesis by simp
    next
      case False
      with 1(2) have "pos + 1 \<le> i" by simp
      moreover from 1(3) eq have "i < skip_blanks source (pos + 1)" by simp
      ultimately show ?thesis using 1(1) True by simp
    qed
  next
    case False
    then have "skip_blanks source pos = pos" by (subst skip_blanks.simps) auto
    with 1(2,3) show ?thesis by simp
  qed
qed

lemma skip_blanks_stop:
  "skip_blanks s pos < length s \<Longrightarrow> s ! skip_blanks s pos \<notin> set (str [CHR '' '', CHR 0x09])"
proof (induction s pos rule: skip_blanks.induct)
  case (1 source pos)
  show ?case
  proof (cases "pos < length source \<and> source ! pos \<in> set (str [CHR '' '', CHR 0x09])")
    case True
    then have eq: "skip_blanks source pos = skip_blanks source (pos + 1)"
      by (subst skip_blanks.simps) simp
    with 1 True show ?thesis by simp
  next
    case False
    then have eq: "skip_blanks source pos = pos" by (subst skip_blanks.simps) auto
    with 1(2) False show ?thesis by simp
  qed
qed

lemma skip_blanks_takeWhile:
  "skip_blanks s pos = pos + length (takeWhile (\<lambda>c. c \<in> set (str [CHR '' '', CHR 0x09])) (drop pos s))"
proof (induction s pos rule: skip_blanks.induct)
  case (1 source pos)
  show ?case
  proof (cases "pos < length source")
    case True
    then have d: "drop pos source = source ! pos # drop (pos + 1) source"
      by (simp add: Cons_nth_drop_Suc)
    show ?thesis
    proof (cases "source ! pos \<in> set (str [CHR '' '', CHR 0x09])")
      case b: True
      with True have "skip_blanks source pos = skip_blanks source (pos + 1)"
        by (subst skip_blanks.simps) simp
      with 1 True b d show ?thesis by simp
    next
      case b: False
      with True have "skip_blanks source pos = pos" by (subst skip_blanks.simps) simp
      with b d show ?thesis by simp
    qed
  next
    case False
    then show ?thesis by (subst skip_blanks.simps) simp
  qed
qed

subsection \<open>The prefix tests\<close>

lemma startswith_length: "startswith s p \<Longrightarrow> length p \<le> length s"
  unfolding startswith_def by (metis length_take min.cobounded1)

lemma php_length: "length (str ''<?php'') = 5"
  by (simp add: str_def)


subsection \<open>What a run returns\<close>

lemma edit_dict_response:
  "edit_dict pos r = response_edit (int pos) (int pos) r (str ''Add file docblock comment'')"
  by (simp add: edit_dict_def response_edit_def)

lemma suggest_Inr:
  assumes "suggest v fp = Inr edits"
  shows "\<exists>s. v = JString s \<and>
           (if startswith s (str ''<?php'') \<and> \<not> startswith s (str ''<?php\<newline>/**'')
            then \<exists>f. fp = JString f \<and>
                   edits = [edit_dict (skip_blanks s 5) (comment (last (str_split f (of_char CHR ''/''))))]
            else edits = [])"
  using assms
  by (auto simp: suggest_def Let_def getitem_minus_one str_split_not_Nil
           split: json.splits if_splits sum.splits)

lemma suggest_strings:
  "suggest (JString s) (JString f) =
     Inr (if startswith s (str ''<?php'') \<and> \<not> startswith s (str ''<?php\<newline>/**'')
          then [edit_dict (skip_blanks s 5) (comment (last (str_split f (of_char CHR ''/''))))]
          else [])"
  by (simp add: suggest_def Let_def getitem_minus_one str_split_not_Nil)

lemma suggest_no_docblock_needed:
  "\<not> (startswith s (str ''<?php'') \<and> \<not> startswith s (str ''<?php\<newline>/**''))
   \<Longrightarrow> suggest (JString s) fp = Inr []"
  by (auto simp: suggest_def)

lemma suggest_file_not_str:
  "startswith s (str ''<?php'') \<Longrightarrow> \<not> startswith s (str ''<?php\<newline>/**'')
   \<Longrightarrow> \<forall>f. fp \<noteq> JString f \<Longrightarrow> suggest (JString s) fp = Inl AttributeError"
  by (cases fp) (simp_all add: suggest_def Let_def)

lemma main_Inr:
  assumes "main loaded out = Inr out'"
  shows "\<exists>input_data source file_path edits.
           loaded = Inr input_data \<and>
           py_get input_data (str ''source'') (JString []) = Inr source \<and>
           py_get input_data (str ''file'') (JString []) = Inr file_path \<and>
           suggest source file_path = Inr edits \<and>
           out' = out @ [output_dict edits]"
  using assms by (auto simp: main_def json_dump_def split: sum.splits)

lemma main_run:
  assumes "py_get input_data (str ''source'') (JString []) = Inr source"
      and "py_get input_data (str ''file'') (JString []) = Inr file_path"
  shows "main (Inr input_data) out =
           (case suggest source file_path of
              Inl e \<Rightarrow> Inl e
            | Inr edits \<Rightarrow> Inr (out @ [output_dict edits]))"
  using assms by (simp add: main_def json_dump_def split: sum.splits)

lemma py_get_object:
  "py_get (JObject kvs) key dflt = Inr (case map_of kvs key of None \<Rightarrow> dflt | Some v \<Rightarrow> v)"
  by (simp add: py_get_def)

lemma main_strings:
  assumes "py_get input_data (str ''source'') (JString []) = Inr (JString s)"
      and "py_get input_data (str ''file'') (JString []) = Inr (JString f)"
  shows "main (Inr input_data) out =
           Inr (out @ [output_dict
             (if startswith s (str ''<?php'') \<and> \<not> startswith s (str ''<?php\<newline>/**'')
              then [edit_dict (skip_blanks s 5) (comment (last (str_split f (of_char CHR ''/''))))]
              else [])])"
  by (simp add: main_run [OF assms] suggest_strings)

lemma main_emits:
  assumes "py_get input_data (str ''source'') (JString []) = Inr (JString s)"
      and "main (Inr input_data) out = Inr out'"
  shows "\<exists>edits. out' = out @ [output_dict edits] \<and>
           (if startswith s (str ''<?php'') \<and> \<not> startswith s (str ''<?php\<newline>/**'')
            then \<exists>f. py_get input_data (str ''file'') (JString []) = Inr (JString f) \<and>
                   edits = [edit_dict (skip_blanks s 5) (comment (last (str_split f (of_char CHR ''/''))))]
            else edits = [])"
proof -
  from main_Inr [OF assms(2)] obtain source file_path edits where
    src: "py_get input_data (str ''source'') (JString []) = Inr source" and
    fp: "py_get input_data (str ''file'') (JString []) = Inr file_path" and
    sg: "suggest source file_path = Inr edits" and
    out: "out' = out @ [output_dict edits]"
    by auto
  from src assms(1) have "source = JString s" by simp
  with suggest_Inr [OF sg] fp out show ?thesis by (auto split: if_splits)
qed

lemma main_edits_at_most_one:
  assumes "main loaded out = Inr out'"
  shows "\<exists>edits. out' = out @ [output_dict edits] \<and> length edits \<le> 1"
proof -
  from main_Inr [OF assms] obtain source file_path edits where
    sg: "suggest source file_path = Inr edits" and out: "out' = out @ [output_dict edits]"
    by auto
  from suggest_Inr [OF sg] have "length edits \<le> 1" by (auto split: if_splits)
  with out show ?thesis by blast
qed

section \<open>Claims about the plugin\<close>

text \<open>
  Claim C1. For every request whose \<open>source\<close> field is a string (the theorem also covers
  the request that has no such field, where \<open>source\<close> is the empty default), every edit
  of a response the plugin writes satisfies \<open>0 <= start <= end <= length(source)\<close>:
  its start equals its end and is at least 5, \<open>source\<close> begins with \<open><?php\<close>, and the
  loop never moves a position that is within \<open>source\<close> past its length.
\<close>

theorem emitted_edit_within_source:
  assumes "py_get input_data (str ''source'') (JString []) = Inr (JString source)"
      and "main (Inr input_data) out = Inr out'"
  shows "\<exists>edits. out' = out @ [output_dict edits] \<and>
           (\<forall>e\<in>set edits. \<exists>a b r m. e = response_edit a b r m \<and>
              0 \<le> a \<and> a \<le> b \<and> b \<le> int (length source) \<and> a = b \<and> 5 \<le> a \<and>
              startswith source (str ''<?php'')) \<and>
           (\<forall>pos\<le>length source. skip_blanks source pos \<le> length source)"
proof -
  from main_emits [OF assms] obtain edits where
    out: "out' = out @ [output_dict edits]" and
    shape: "if startswith source (str ''<?php'') \<and> \<not> startswith source (str ''<?php\<newline>/**'')
            then \<exists>f. py_get input_data (str ''file'') (JString []) = Inr (JString f) \<and>
                   edits = [edit_dict (skip_blanks source 5)
                              (comment (last (str_split f (of_char CHR ''/''))))]
            else edits = []"
    by blast
  have "\<exists>a b r m. e = response_edit a b r m \<and>
              0 \<le> a \<and> a \<le> b \<and> b \<le> int (length source) \<and> a = b \<and> 5 \<le> a \<and>
              startswith source (str ''<?php'')" if "e \<in> set edits" for e
  proof -
    from that shape obtain f where
      php: "startswith source (str ''<?php'')" and
      e: "e = edit_dict (skip_blanks source 5) (comment (last (str_split f (of_char CHR ''/''))))"
      by (auto split: if_splits)
    from startswith_length [OF php] have len: "5 \<le> length source" by (simp add: php_length)
    have "5 \<le> skip_blanks source 5" by (rule skip_blanks_ge)
    moreover have "skip_blanks source 5 \<le> length source" by (rule skip_blanks_le [OF len])
    ultimately show ?thesis using php unfolding e edit_dict_response by fastforce
  qed
  with out show ?thesis by (auto simp: skip_blanks_le)
qed

text \<open>
  The request \<open>{"source": "<?php  echo 1;", "file": "src/a.php"}\<close>: the edit is at
  offset 7, after the two blanks, and the source has 14 code points.
\<close>

theorem emitted_edit_within_source_witness:
  "py_get (JObject [(str ''source'', JString (str ''<?php  echo 1;'')),
                    (str ''file'', JString (str ''src/a.php''))])
     (str ''source'') (JString []) = Inr (JString (str ''<?php  echo 1;'')) \<and>
   main (Inr (JObject [(str ''source'', JString (str ''<?php  echo 1;'')),
                       (str ''file'', JString (str ''src/a.php''))])) []
     = Inr [output_dict [response_edit 7 7 (comment (str ''a.php''))
                           (str ''Add file docblock comment'')]] \<and>
   (\<exists>edits. [output_dict [response_edit 7 7 (comment (str ''a.php''))
                            (str ''Add file docblock comment'')]] = [] @ [output_dict edits] \<and>
      (\<forall>e\<in>set edits. \<exists>a b r m. e = response_edit a b r m \<and>
         0 \<le> a \<and> a \<le> b \<and> b \<le> int (length (str ''<?php  echo 1;'')) \<and> a = b \<and> 5 \<le> a \<and>
         startswith (str ''<?php  echo 1;'') (str ''<?php'')) \<and>
      (\<forall>pos\<le>length (str ''<?php  echo 1;'').
         skip_blanks (str ''<?php  echo 1;'') pos \<le> length (str ''<?php  echo 1;'')))"
proof -
  have h1: "py_get (JObject [(str ''source'', JString (str ''<?php  echo 1;'')),
                    (str ''file'', JString (str ''src/a.php''))])
     (str ''source'') (JString []) = Inr (JString (str ''<?php  echo 1;''))"
    by (simp add: py_get_def str_def)
  have h2: "main (Inr (JObject [(str ''source'', JString (str ''<?php  echo 1;'')),
                       (str ''file'', JString (str ''src/a.php''))])) []
     = Inr [output_dict [response_edit 7 7 (comment (str ''a.php''))
                           (str ''Add file docblock comment'')]]"
    by code_simp
  show ?thesis
    by (intro conjI) (rule h1, rule h2, rule emitted_edit_within_source [OF h1 h2])
qed

text \<open>
  Claim C2. For every request that is a JSON object with string \<open>source\<close> and \<open>file\<close>
  fields, the run returns normally having written exactly one document, the object
  with the one key \<open>edits\<close> mapped to a list, and every entry of that list is an object
  with exactly the four keys \<open>start\<close> (integer), \<open>end\<close> (integer), \<open>replacement\<close>
  (string) and \<open>message\<close> (string).
\<close>

theorem response_follows_schema:
  assumes "map_of kvs (str ''source'') = Some (JString source)"
      and "map_of kvs (str ''file'') = Some (JString file_path)"
  shows "\<exists>edits. main (Inr (JObject kvs)) out = Inr (out @ [JObject [(str ''edits'', JArray edits)]]) \<and>
           (\<forall>e\<in>set edits. \<exists>a b r m.
              e = JObject [(str ''start'', JInt a), (str ''end'', JInt b),
                           (str ''replacement'', JString r), (str ''message'', JString m)])"
proof -
  have s: "py_get (JObject kvs) (str ''source'') (JString []) = Inr (JString source)"
    and f: "py_get (JObject kvs) (str ''file'') (JString []) = Inr (JString file_path)"
    using assms by (simp_all add: py_get_object)
  show ?thesis
    unfolding main_strings [OF s f] output_dict_def
    by (auto simp: edit_dict_def)
qed

text \<open>The request \<open>{"source": "<?php", "file": "a.php"}\<close>, on an empty standard output.\<close>

theorem response_follows_schema_witness:
  "map_of [(str ''source'', JString (str ''<?php'')), (str ''file'', JString (str ''a.php''))]
     (str ''source'') = Some (JString (str ''<?php'')) \<and>
   map_of [(str ''source'', JString (str ''<?php'')), (str ''file'', JString (str ''a.php''))]
     (str ''file'') = Some (JString (str ''a.php'')) \<and>
   (\<exists>edits.
      main (Inr (JObject [(str ''source'', JString (str ''<?php'')),
                          (str ''file'', JString (str ''a.php''))])) []
        = Inr ([] @ [JObject [(str ''edits'', JArray edits)]]) \<and>
      (\<forall>e\<in>set edits. \<exists>a b r m.
         e = JObject [(str ''start'', JInt a), (str ''end'', JInt b),
                      (str ''replacement'', JString r), (str ''message'', JString m)]))"
proof -
  have h1: "map_of [(str ''source'', JString (str ''<?php'')), (str ''file'', JString (str ''a.php''))]
     (str ''source'') = Some (JString (str ''<?php''))"
    by (simp add: str_def)
  have h2: "map_of [(str ''source'', JString (str ''<?php'')), (str ''file'', JString (str ''a.php''))]
     (str ''file'') = Some (JString (str ''a.php''))"
    by (simp add: str_def)
  show ?thesis
    by (intro conjI) (rule h1, rule h2, rule response_follows_schema [OF h1 h2])
qed

text \<open>
  Claim C3. Every edit the plugin emits has \<open>start == end\<close>, a pure insertion: for every
  input, whatever \<open>json.load\<close> gave, a run that writes a response writes no edit with
  \<open>start < end\<close>. (A run that raises has written nothing.)
\<close>

theorem emitted_edit_is_insertion:
  assumes "main loaded out = Inr out'"
  shows "\<exists>edits. out' = out @ [output_dict edits] \<and>
           (\<forall>e\<in>set edits. \<exists>a b r m. e = response_edit a b r m \<and> a = b \<and> \<not> a < b)"
proof -
  from main_Inr [OF assms] obtain source file_path edits where
    sg: "suggest source file_path = Inr edits" and out: "out' = out @ [output_dict edits]"
    by auto
  from suggest_Inr [OF sg]
  have "\<forall>e\<in>set edits. \<exists>a b r m. e = response_edit a b r m \<and> a = b \<and> \<not> a < b"
    by (fastforce simp: edit_dict_response split: if_splits)
  with out show ?thesis by blast
qed

text \<open>The request \<open>{"source": "<?php\t", "file": "lib/x.php"}\<close>: an insertion at 6.\<close>

theorem emitted_edit_is_insertion_witness:
  "main (Inr (JObject [(str ''source'', JString (str (''<?php'' @ [CHR 0x09]))),
                       (str ''file'', JString (str ''lib/x.php''))])) []
     = Inr [output_dict [response_edit 6 6 (comment (str ''x.php''))
                           (str ''Add file docblock comment'')]] \<and>
   (\<exists>edits. [output_dict [response_edit 6 6 (comment (str ''x.php''))
                            (str ''Add file docblock comment'')]] = [] @ [output_dict edits] \<and>
      (\<forall>e\<in>set edits. \<exists>a b r m. e = response_edit a b r m \<and> a = b \<and> \<not> a < b))"
proof -
  have h: "main (Inr (JObject [(str ''source'', JString (str (''<?php'' @ [CHR 0x09]))),
                       (str ''file'', JString (str ''lib/x.php''))])) []
     = Inr [output_dict [response_edit 6 6 (comment (str ''x.php''))
                           (str ''Add file docblock comment'')]]"
    by code_simp
  show ?thesis
    by (intro conjI) (rule h, rule emitted_edit_is_insertion [OF h])
qed

text \<open>
  Claim C4. The \<open>file\<close> field is advisory: two requests with the same string \<open>source\<close>
  and string \<open>file\<close> values (different or not) get responses with the same number of
  edits, with the same start and end at each position and the same message; the
  \<open>file\<close> value reaches the response only through its part after the last \<open>/\<close>, so two
  paths with the same such part get the same edits. The run is a function of the
  request and its one effect is the write to standard output: the source has no call
  that resolves or opens a path, and so the model has none.
\<close>

theorem file_is_advisory:
  assumes "map_of kvs1 (str ''source'') = Some (JString source)"
      and "map_of kvs2 (str ''source'') = Some (JString source)"
      and "map_of kvs1 (str ''file'') = Some (JString f1)"
      and "map_of kvs2 (str ''file'') = Some (JString f2)"
  shows "\<exists>edits1 edits2.
           main (Inr (JObject kvs1)) out = Inr (out @ [output_dict edits1]) \<and>
           main (Inr (JObject kvs2)) out = Inr (out @ [output_dict edits2]) \<and>
           length edits1 = length edits2 \<and>
           (\<forall>i<length edits1. \<exists>a b r1 r2 m.
              edits1 ! i = response_edit a b r1 m \<and> edits2 ! i = response_edit a b r2 m) \<and>
           (rev (takeWhile (\<lambda>c. c \<noteq> of_char CHR ''/'') (rev f1)) =
            rev (takeWhile (\<lambda>c. c \<noteq> of_char CHR ''/'') (rev f2)) \<longrightarrow> edits1 = edits2)"
proof -
  have s1: "py_get (JObject kvs1) (str ''source'') (JString []) = Inr (JString source)"
    and s2: "py_get (JObject kvs2) (str ''source'') (JString []) = Inr (JString source)"
    and p1: "py_get (JObject kvs1) (str ''file'') (JString []) = Inr (JString f1)"
    and p2: "py_get (JObject kvs2) (str ''file'') (JString []) = Inr (JString f2)"
    using assms by (simp_all add: py_get_object)
  define pos where "pos = skip_blanks source 5"
  define edits_for where "edits_for f =
     (if startswith source (str ''<?php'') \<and> \<not> startswith source (str ''<?php\<newline>/**'')
      then [edit_dict pos (comment (last (str_split f (of_char CHR ''/''))))]
      else [])" for f
  have m1: "main (Inr (JObject kvs1)) out = Inr (out @ [output_dict (edits_for f1)])"
    unfolding edits_for_def pos_def by (rule main_strings [OF s1 p1])
  have m2: "main (Inr (JObject kvs2)) out = Inr (out @ [output_dict (edits_for f2)])"
    unfolding edits_for_def pos_def by (rule main_strings [OF s2 p2])
  have len: "length (edits_for f1) = length (edits_for f2)"
    by (simp add: edits_for_def)
  have offs: "\<forall>i<length (edits_for f1). \<exists>a b r1 r2 m.
      edits_for f1 ! i = response_edit a b r1 m \<and> edits_for f2 ! i = response_edit a b r2 m"
    by (simp add: edits_for_def edit_dict_response) blast
  have name: "rev (takeWhile (\<lambda>c. c \<noteq> of_char CHR ''/'') (rev f1)) =
              rev (takeWhile (\<lambda>c. c \<noteq> of_char CHR ''/'') (rev f2))
              \<longrightarrow> edits_for f1 = edits_for f2"
    by (simp add: edits_for_def last_str_split)
  from m1 m2 len offs name show ?thesis by blast
qed

text \<open>
  The source \<open><?php echo 1;\<close> sent once as \<open>a/x.php\<close> and once as \<open>b/c/y.php\<close>.
\<close>

theorem file_is_advisory_witness:
  "map_of [(str ''source'', JString (str ''<?php echo 1;'')), (str ''file'', JString (str ''a/x.php''))]
     (str ''source'') = Some (JString (str ''<?php echo 1;'')) \<and>
   map_of [(str ''file'', JString (str ''b/c/y.php'')), (str ''source'', JString (str ''<?php echo 1;''))]
     (str ''source'') = Some (JString (str ''<?php echo 1;'')) \<and>
   map_of [(str ''source'', JString (str ''<?php echo 1;'')), (str ''file'', JString (str ''a/x.php''))]
     (str ''file'') = Some (JString (str ''a/x.php'')) \<and>
   map_of [(str ''file'', JString (str ''b/c/y.php'')), (str ''source'', JString (str ''<?php echo 1;''))]
     (str ''file'') = Some (JString (str ''b/c/y.php'')) \<and>
   (\<exists>edits1 edits2.
      main (Inr (JObject [(str ''source'', JString (str ''<?php echo 1;'')),
                          (str ''file'', JString (str ''a/x.php''))])) []
        = Inr ([] @ [output_dict edits1]) \<and>
      main (Inr (JObject [(str ''file'', JString (str ''b/c/y.php'')),
                          (str ''source'', JString (str ''<?php echo 1;''))])) []
        = Inr ([] @ [output_dict edits2]) \<and>
      length edits1 = length edits2 \<and>
      (\<forall>i<length edits1. \<exists>a b r1 r2 m.
         edits1 ! i = response_edit a b r1 m \<and> edits2 ! i = response_edit a b r2 m) \<and>
      (rev (takeWhile (\<lambda>c. c \<noteq> of_char CHR ''/'') (rev (str ''a/x.php''))) =
       rev (takeWhile (\<lambda>c. c \<noteq> of_char CHR ''/'') (rev (str ''b/c/y.php'')))
         \<longrightarrow> edits1 = edits2))"
proof -
  have h1: "map_of [(str ''source'', JString (str ''<?php echo 1;'')), (str ''file'', JString (str ''a/x.php''))]
     (str ''source'') = Some (JString (str ''<?php echo 1;''))"
    by (simp add: str_def)
  have h2: "map_of [(str ''file'', JString (str ''b/c/y.php'')), (str ''source'', JString (str ''<?php echo 1;''))]
     (str ''source'') = Some (JString (str ''<?php echo 1;''))"
    by (simp add: str_def)
  have h3: "map_of [(str ''source'', JString (str ''<?php echo 1;'')), (str ''file'', JString (str ''a/x.php''))]
     (str ''file'') = Some (JString (str ''a/x.php''))"
    by (simp add: str_def)
  have h4: "map_of [(str ''file'', JString (str ''b/c/y.php'')), (str ''source'', JString (str ''<?php echo 1;''))]
     (str ''file'') = Some (JString (str ''b/c/y.php''))"
    by (simp add: str_def)
  show ?thesis
    by (intro conjI) (rule h1, rule h2, rule h3, rule h4, rule file_is_advisory [OF h1 h2 h3 h4])
qed

text \<open>
  Claim C8 says that every request with a string \<open>source\<close> that starts with \<open><?php\<close>
  and not with \<open><?php\n/**\<close> gets exactly one edit. On the request
  \<open>{"source": "<?php", "file": 1}\<close> the source is such a string, yet line 31 calls
  \<open>split\<close> on the integer 1: the run ends with \<open>AttributeError\<close> and no response is
  written.
\<close>

theorem one_edit_needs_str_file_counterexample:
  "map_of [(str ''source'', JString (str ''<?php'')), (str ''file'', JInt 1)] (str ''source'')
     = Some (JString (str ''<?php'')) \<and>
   startswith (str ''<?php'') (str ''<?php'') \<and>
   \<not> startswith (str ''<?php'') (str ''<?php\<newline>/**'') \<and>
   main (Inr (JObject [(str ''source'', JString (str ''<?php'')), (str ''file'', JInt 1)])) []
     = Inl AttributeError"
  by code_simp

text \<open>
  Claim C8, amended. For every request whose \<open>source\<close> field is a string: when \<open>source\<close>
  does not start with \<open><?php\<close>, or starts with \<open><?php\n/**\<close>, the plugin writes an empty
  edits list, whatever \<open>file\<close> is; when it starts with \<open><?php\<close> and not with
  \<open><?php\n/**\<close>, the plugin writes exactly one edit if \<open>file\<close> is a string or absent, and
  raises \<open>AttributeError\<close> without writing a response if \<open>file\<close> is anything else. No run,
  on any input, writes more than one edit.
\<close>

theorem one_edit_or_none:
  assumes "map_of kvs (str ''source'') = Some (JString source)"
  shows "(\<not> (startswith source (str ''<?php'') \<and> \<not> startswith source (str ''<?php\<newline>/**''))
            \<longrightarrow> main (Inr (JObject kvs)) out = Inr (out @ [output_dict []])) \<and>
         (startswith source (str ''<?php'') \<and> \<not> startswith source (str ''<?php\<newline>/**'') \<and>
          (\<exists>f. py_get (JObject kvs) (str ''file'') (JString []) = Inr (JString f))
            \<longrightarrow> (\<exists>e. main (Inr (JObject kvs)) out = Inr (out @ [output_dict [e]]))) \<and>
         (startswith source (str ''<?php'') \<and> \<not> startswith source (str ''<?php\<newline>/**'') \<and>
          \<not> (\<exists>f. py_get (JObject kvs) (str ''file'') (JString []) = Inr (JString f))
            \<longrightarrow> main (Inr (JObject kvs)) out = Inl AttributeError) \<and>
         (\<forall>loaded out0 out'. main loaded out0 = Inr out'
            \<longrightarrow> (\<exists>edits. out' = out0 @ [output_dict edits] \<and> length edits \<le> 1))"
proof -
  have s: "py_get (JObject kvs) (str ''source'') (JString []) = Inr (JString source)"
    using assms by (simp add: py_get_object)
  obtain fp where fp: "py_get (JObject kvs) (str ''file'') (JString []) = Inr fp"
    by (simp add: py_get_object)
  note run = main_run [OF s fp, of out]
  have none: "main (Inr (JObject kvs)) out = Inr (out @ [output_dict []])"
    if "\<not> (startswith source (str ''<?php'') \<and> \<not> startswith source (str ''<?php\<newline>/**''))"
    using that run by (simp add: suggest_no_docblock_needed)
  have one: "\<exists>e. main (Inr (JObject kvs)) out = Inr (out @ [output_dict [e]])"
    if "startswith source (str ''<?php'')" "\<not> startswith source (str ''<?php\<newline>/**'')"
       "py_get (JObject kvs) (str ''file'') (JString []) = Inr (JString f)" for f
    using that main_strings [OF s that(3), of out] by simp blast
  have bad: "main (Inr (JObject kvs)) out = Inl AttributeError"
    if "startswith source (str ''<?php'')" "\<not> startswith source (str ''<?php\<newline>/**'')"
       "\<not> (\<exists>f. py_get (JObject kvs) (str ''file'') (JString []) = Inr (JString f))"
  proof -
    from that(3) fp have "\<forall>f. fp \<noteq> JString f" by auto
    from suggest_file_not_str [OF that(1,2) this] run show ?thesis by simp
  qed
  from none one bad main_edits_at_most_one show ?thesis by blast
qed

text \<open>The request \<open>{"source": "<?php", "file": "a.php"}\<close> gets one edit.\<close>

theorem one_edit_or_none_witness:
  "map_of [(str ''source'', JString (str ''<?php'')), (str ''file'', JString (str ''a.php''))]
     (str ''source'') = Some (JString (str ''<?php'')) \<and>
   startswith (str ''<?php'') (str ''<?php'') \<and>
   \<not> startswith (str ''<?php'') (str ''<?php\<newline>/**'') \<and>
   (\<exists>f. py_get (JObject [(str ''source'', JString (str ''<?php'')),
                          (str ''file'', JString (str ''a.php''))])
           (str ''file'') (JString []) = Inr (JString f)) \<and>
   (\<exists>e. main (Inr (JObject [(str ''source'', JString (str ''<?php'')),
                            (str ''file'', JString (str ''a.php''))])) []
           = Inr ([] @ [output_dict [e]]))"
proof -
  let ?kvs = "[(str ''source'', JString (str ''<?php'')), (str ''file'', JString (str ''a.php''))]"
  have h: "map_of ?kvs (str ''source'') = Some (JString (str ''<?php''))"
    by (simp add: str_def)
  have c1: "startswith (str ''<?php'') (str ''<?php'')"
    by (simp add: startswith_def)
  have c2: "\<not> startswith (str ''<?php'') (str ''<?php\<newline>/**'')"
    by (simp add: startswith_def str_def)
  have c3: "\<exists>f. py_get (JObject ?kvs) (str ''file'') (JString []) = Inr (JString f)"
    by (simp add: py_get_def str_def)
  from one_edit_or_none [OF h, of "[]"] c1 c2 c3
  have "\<exists>e. main (Inr (JObject ?kvs)) [] = Inr ([] @ [output_dict [e]])"
    by blast
  with h c1 c2 c3 show ?thesis by (intro conjI)
qed

text \<open>
  Claim C9. Whenever the plugin emits an edit, its start, equal to its end, is 5 plus
  the length of the longest run of spaces and tabs that begins at index 5 of \<open>source\<close>:
  every code point of \<open>source\<close> in \<open>[5, start)\<close> is a space or a tab, and either
  \<open>start == length(source)\<close> or \<open>source[start]\<close> is neither. On the source \<open><?php\n\<close> the
  response holds one edit, at 5.
\<close>

theorem edit_offset_follows_blanks:
  assumes "py_get input_data (str ''source'') (JString []) = Inr (JString source)"
      and "main (Inr input_data) out = Inr out'"
  shows "\<exists>edits. out' = out @ [output_dict edits] \<and>
           (\<forall>e\<in>set edits. \<exists>pos r m.
              e = response_edit (int pos) (int pos) r m \<and>
              pos = 5 + length (takeWhile (\<lambda>c. c = of_char CHR '' '' \<or> c = of_char CHR 0x09)
                                 (drop 5 source)) \<and>
              (\<forall>i. 5 \<le> i \<and> i < pos \<longrightarrow>
                 source ! i = of_char CHR '' '' \<or> source ! i = of_char CHR 0x09) \<and>
              (pos = length source \<or>
               pos < length source \<and> source ! pos \<noteq> of_char CHR '' '' \<and>
               source ! pos \<noteq> of_char CHR 0x09)) \<and>
           (source = str ''<?php\<newline>'' \<longrightarrow> (\<exists>r m. edits = [response_edit 5 5 r m]))"
proof -
  let ?cond = "startswith source (str ''<?php'') \<and> \<not> startswith source (str ''<?php\<newline>/**'')"
  from main_emits [OF assms] obtain edits where
    out: "out' = out @ [output_dict edits]" and
    shape: "if ?cond
            then \<exists>f. py_get input_data (str ''file'') (JString []) = Inr (JString f) \<and>
                   edits = [edit_dict (skip_blanks source 5)
                              (comment (last (str_split f (of_char CHR ''/''))))]
            else edits = []"
    by blast
  let ?pos = "skip_blanks source 5"
  have run: "\<exists>pos r m.
              e = response_edit (int pos) (int pos) r m \<and>
              pos = 5 + length (takeWhile (\<lambda>c. c = of_char CHR '' '' \<or> c = of_char CHR 0x09)
                                 (drop 5 source)) \<and>
              (\<forall>i. 5 \<le> i \<and> i < pos \<longrightarrow>
                 source ! i = of_char CHR '' '' \<or> source ! i = of_char CHR 0x09) \<and>
              (pos = length source \<or>
               pos < length source \<and> source ! pos \<noteq> of_char CHR '' '' \<and>
               source ! pos \<noteq> of_char CHR 0x09)" if "e \<in> set edits" for e
  proof -
    from that shape obtain f where
      php: "startswith source (str ''<?php'')" and
      e: "e = edit_dict ?pos (comment (last (str_split f (of_char CHR ''/''))))"
      by (auto split: if_splits)
    from startswith_length [OF php] have len: "5 \<le> length source" by (simp add: php_length)
    have 1: "?pos = 5 + length (takeWhile (\<lambda>c. c = of_char CHR '' '' \<or> c = of_char CHR 0x09)
                                 (drop 5 source))"
      using skip_blanks_takeWhile [of source 5] by (simp only: blank_iff)
    have 2: "\<forall>i. 5 \<le> i \<and> i < ?pos \<longrightarrow>
                 source ! i = of_char CHR '' '' \<or> source ! i = of_char CHR 0x09"
      using skip_blanks_run [of 5 _ source] by (simp only: blank_iff) blast
    have 3: "?pos = length source \<or>
               ?pos < length source \<and> source ! ?pos \<noteq> of_char CHR '' '' \<and>
               source ! ?pos \<noteq> of_char CHR 0x09"
      using skip_blanks_stop [of source 5] skip_blanks_le [OF len]
      by (simp only: blank_iff) linarith
    from e 1 2 3 show ?thesis unfolding edit_dict_response by blast
  qed
  have particular: "\<exists>r m. edits = [response_edit 5 5 r m]" if src: "source = str ''<?php\<newline>''"
  proof -
    have c: ?cond unfolding src by (simp add: startswith_def str_def)
    have "skip_blanks source 5 = 5" unfolding src
      by (subst skip_blanks.simps) (simp add: str_def)
    with shape c show ?thesis by (auto simp: edit_dict_response)
  qed
  from out run particular show ?thesis by blast
qed

text \<open>The request \<open>{"source": "<?php\n", "file": "a.php"}\<close>: one edit, at 5.\<close>

theorem edit_offset_follows_blanks_witness:
  "py_get (JObject [(str ''source'', JString (str ''<?php\<newline>'')),
                    (str ''file'', JString (str ''a.php''))])
     (str ''source'') (JString []) = Inr (JString (str ''<?php\<newline>'')) \<and>
   main (Inr (JObject [(str ''source'', JString (str ''<?php\<newline>'')),
                       (str ''file'', JString (str ''a.php''))])) []
     = Inr [output_dict [response_edit 5 5 (comment (str ''a.php''))
                           (str ''Add file docblock comment'')]] \<and>
   (\<exists>r m. [response_edit 5 5 (comment (str ''a.php'')) (str ''Add file docblock comment'')]
            = [response_edit 5 5 r m])"
proof -
  let ?req = "JObject [(str ''source'', JString (str ''<?php\<newline>'')),
                       (str ''file'', JString (str ''a.php''))]"
  let ?edit = "response_edit 5 5 (comment (str ''a.php'')) (str ''Add file docblock comment'')"
  have h1: "py_get ?req (str ''source'') (JString []) = Inr (JString (str ''<?php\<newline>''))"
    by (simp add: py_get_def str_def)
  have h2: "main (Inr ?req) [] = Inr [output_dict [?edit]]"
    by code_simp
  from edit_offset_follows_blanks [OF h1 h2] obtain edits where
    "[output_dict [?edit]] = [] @ [output_dict edits]" and
    "\<exists>r m. edits = [response_edit 5 5 r m]"
    by blast
  then have "\<exists>r m. [?edit] = [response_edit 5 5 r m]"
    by (simp add: output_dict_def)
  with h1 h2 show ?thesis by (intro conjI)
qed



section \<open>Facts about the Merger\<close>

lemma length_slice:
  "0 \<le> i \<Longrightarrow> i \<le> j \<Longrightarrow> j \<le> int (length source) \<Longrightarrow> length (slice source i j) = nat j - nat i"
  by (simp add: slice_def)

lemma walk_step_accept:
  "cursor st \<le> edit_start e \<Longrightarrow>
   walk_step source st e =
     st\<lparr>buffer := buffer st @ slice source (cursor st) (edit_start e) @ edit_replacement e,
        cursor := edit_end e,
        applied := applied st @ [e]\<rparr>"
  by (simp add: walk_step_def)

text \<open>
  Sorted insertions that start at or after the cursor are all accepted, and each adds
  the length of its replacement to what the finished text will hold.
\<close>

lemma walk_insertions:
  assumes "\<forall>e\<in>set es. valid_edit source e \<and> edit_start e = edit_end e"
      and "sorted (map edit_start es)"
      and "\<forall>e\<in>set es. cursor st \<le> edit_start e"
      and "0 \<le> cursor st" and "cursor st \<le> int (length source)"
  shows "length (fst (finish source (walk source es st))) =
           length (buffer st) + (length source - nat (cursor st)) +
           (\<Sum>e\<leftarrow>es. length (edit_replacement e)) \<and>
         snd (finish source (walk source es st)) =
           \<lparr>applied = applied st @ es, rejected = rejected st\<rparr>"
  using assms
proof (induction es arbitrary: st)
  case Nil
  then show ?case by (simp add: finish_def)
next
  case (Cons e es)
  let ?st = "walk_step source st e"
  from Cons.prems have ins: "edit_start e = edit_end e" and v: "valid_edit source e"
    and le: "cursor st \<le> edit_start e" by simp_all
  from v have hi: "edit_end e \<le> int (length source)" and lo: "0 \<le> edit_start e"
    by (simp_all add: valid_edit_def)
  have st: "?st = st\<lparr>buffer := buffer st @ slice source (cursor st) (edit_start e) @ edit_replacement e,
        cursor := edit_end e, applied := applied st @ [e]\<rparr>"
    by (rule walk_step_accept [OF le])
  have c: "cursor ?st = edit_start e" by (simp add: st ins)
  have b: "length (buffer ?st) =
           length (buffer st) + (nat (edit_start e) - nat (cursor st)) + length (edit_replacement e)"
    using Cons.prems(4) le hi ins by (simp add: st length_slice)
  have 1: "\<forall>x\<in>set es. valid_edit source x \<and> edit_start x = edit_end x"
    using Cons.prems(1) by simp
  have 2: "sorted (map edit_start es)" using Cons.prems(2) by simp
  have 3: "\<forall>x\<in>set es. cursor ?st \<le> edit_start x"
    using Cons.prems(2) by (simp add: c)
  have 4: "0 \<le> cursor ?st" using lo by (simp add: c)
  have 5: "cursor ?st \<le> int (length source)" using hi ins by (simp add: c)
  note IH = Cons.IH [OF 1 2 3 4 5]
  have ar: "applied ?st = applied st @ [e]" and rj: "rejected ?st = rejected st"
    by (simp_all add: st)
  have arith: "length (buffer ?st) + (length source - nat (cursor ?st)) =
               length (buffer st) + (length source - nat (cursor st)) + length (edit_replacement e)"
    using b c le hi ins Cons.prems(4) by simp
  show ?case using IH arith ar rj by simp
qed

lemma sum_list_sort_key:
  "(\<Sum>x\<leftarrow>sort_key k xs. (f x :: nat)) = (\<Sum>x\<leftarrow>xs. f x)"
proof -
  have "(\<Sum>x\<leftarrow>sort_key k xs. f x) = sum_mset (image_mset f (mset (sort_key k xs)))"
    by (metis mset_map sum_mset_sum_list)
  also have "\<dots> = sum_mset (image_mset f (mset xs))" by simp
  also have "\<dots> = (\<Sum>x\<leftarrow>xs. f x)" by (metis mset_map sum_mset_sum_list)
  finally show ?thesis .
qed

section \<open>Claims about the Merger\<close>

text \<open>
  Claim C5. On the source \<open>abcdefghij\<close> with the Edits \<open>e1 = (0, 5, "X")\<close> and
  \<open>e2 = (3, 8, "Y")\<close>, whatever their messages and origins and in either order of
  declaration: after \<open>e1\<close> the cursor is 5; \<open>e2\<close> starts at 3, before the cursor; the
  final text is \<open>Xfghij\<close>, \<open>e1\<close> is applied and \<open>e2\<close> is rejected with \<open>OverlapError\<close>.
\<close>

theorem overlap_policy_example:
  "let e1 = \<lparr>edit_start = 0, edit_end = 5, edit_replacement = str ''X'',
              edit_message = m1, origin = p1\<rparr>;
       e2 = \<lparr>edit_start = 3, edit_end = 8, edit_replacement = str ''Y'',
              edit_message = m2, origin = p2\<rparr>;
       source = str ''abcdefghij''
   in cursor (walk source [e1] (initial_state source [e1, e2])) = 5 \<and>
      edit_start e2 < cursor (walk source [e1] (initial_state source [e1, e2])) \<and>
      merger [e1, e2] source =
        (str ''Xfghij'', \<lparr>applied = [e1], rejected = [(e2, OverlapError)]\<rparr>) \<and>
      merger [e2, e1] source =
        (str ''Xfghij'', \<lparr>applied = [e1], rejected = [(e2, OverlapError)]\<rparr>)"
  by (simp add: Let_def merger_def finish_def walk_step_def initial_state_def valid_edit_def
                slice_def str_def)

text \<open>
  Claim C7. For valid Edits that are all pure insertions, the Merger's result has the
  length of the source plus the sum of the lengths of the replacements. Insertions never
  overlap in the Merger's sense: sorted by start none starts before the cursor, which
  is the start of the one before, so all are applied and none is rejected, and the claim
  needs no separate hypothesis that they do not overlap.
\<close>

theorem insertions_add_their_lengths:
  assumes "\<forall>e\<in>set edits. valid_edit source e \<and> edit_start e = edit_end e"
  shows "length (fst (merger edits source)) =
           length source + (\<Sum>e\<leftarrow>edits. length (edit_replacement e)) \<and>
         snd (merger edits source) =
           \<lparr>applied = sort_key edit_start edits, rejected = []\<rparr>"
proof -
  let ?ordered = "sort_key edit_start edits"
  from assms have all: "filter (valid_edit source) edits = edits"
    and none: "filter (\<lambda>e. \<not> valid_edit source e) edits = []"
    by (simp_all add: filter_empty_conv)
  have init: "initial_state source edits = \<lparr>applied = [], rejected = [], cursor = 0, buffer = []\<rparr>"
    by (simp add: initial_state_def none)
  have 1: "\<forall>e\<in>set ?ordered. valid_edit source e \<and> edit_start e = edit_end e"
    using assms by simp
  have 2: "sorted (map edit_start ?ordered)" by simp
  have 3: "\<forall>e\<in>set ?ordered. cursor (initial_state source edits) \<le> edit_start e"
    using assms by (auto simp: init valid_edit_def)
  have 4: "0 \<le> cursor (initial_state source edits)"
    and 5: "cursor (initial_state source edits) \<le> int (length source)"
    by (simp_all add: init)
  from walk_insertions [OF 1 2 3 4 5] show ?thesis
    by (simp add: merger_def all init sum_list_sort_key)
qed

text \<open>
  Two insertions into \<open><?php\n\<close>, declared out of order: \<open>X\<close> at 5 and \<open>YZ\<close> at 0. The
  result has 6 + 3 code points.
\<close>

theorem insertions_add_their_lengths_witness:
  "valid_edit (str ''<?php\<newline>'')
     \<lparr>edit_start = 5, edit_end = 5, edit_replacement = str ''X'', edit_message = [], origin = str ''a''\<rparr> \<and>
   valid_edit (str ''<?php\<newline>'')
     \<lparr>edit_start = 0, edit_end = 0, edit_replacement = str ''YZ'', edit_message = [], origin = str ''b''\<rparr> \<and>
   length (fst (merger
     [\<lparr>edit_start = 5, edit_end = 5, edit_replacement = str ''X'', edit_message = [], origin = str ''a''\<rparr>,
      \<lparr>edit_start = 0, edit_end = 0, edit_replacement = str ''YZ'', edit_message = [], origin = str ''b''\<rparr>]
     (str ''<?php\<newline>''))) = 9"
proof -
  let ?x = "\<lparr>edit_start = 5, edit_end = 5, edit_replacement = str ''X'',
              edit_message = [], origin = str ''a''\<rparr>"
  let ?yz = "\<lparr>edit_start = 0, edit_end = 0, edit_replacement = str ''YZ'',
               edit_message = [], origin = str ''b''\<rparr>"
  let ?src = "str ''<?php\<newline>''"
  have v1: "valid_edit ?src ?x" and v2: "valid_edit ?src ?yz"
    by (simp_all add: valid_edit_def str_def)
  then have h: "\<forall>e\<in>set [?x, ?yz]. valid_edit ?src e \<and> edit_start e = edit_end e"
    by simp
  from insertions_add_their_lengths [OF h]
  have "length (fst (merger [?x, ?yz] ?src)) =
        length ?src + (\<Sum>e\<leftarrow>[?x, ?yz]. length (edit_replacement e))"
    by (rule conjunct1)
  then have "length (fst (merger [?x, ?yz] ?src)) = 9"
    by (simp add: str_def)
  with v1 v2 show ?thesis by (intro conjI)
qed

end
